theory Spec2Isabelle
  imports Main "HOL-Library.Word" "HOL-Library.While_Combinator"
begin

unbundle bit_operations_syntax

section \<open>C strings\<close>

text \<open>
  A \<^verbatim>\<open>const char *\<close> is modelled by the \<^typ>\<open>string\<close> whose bytes the pointer
  addresses; the buffer ends with a NUL byte, so every index from the first NUL
  (or from the end of the list) on reads as 0.  All string routines below walk the
  buffer byte by byte through \<open>byte_at\<close>, as the C loops do, so they are defined on
  every HOL string, including one with an embedded NUL.
\<close>

definition byte_at :: "string \<Rightarrow> nat \<Rightarrow> nat" where
  "byte_at s i = (if i < length s then of_char (s ! i) else 0)"

definition cstr :: "string \<Rightarrow> string" where
  "cstr s = takeWhile (\<lambda>c. c \<noteq> CHR 0x00) s"

definition strlen :: "string \<Rightarrow> nat" where
  "strlen s = length (cstr s)"

definition strdup :: "string \<Rightarrow> string" where
  "strdup s = cstr s"

function strcmp_from :: "string \<Rightarrow> string \<Rightarrow> nat \<Rightarrow> bool" where
  "strcmp_from a b i =
     (if byte_at a i = byte_at b i
      then (if byte_at a i = 0 then True else strcmp_from a b (i + 1))
      else False)"
  by pat_completeness auto
termination
  by (relation "measure (\<lambda>(a, b, i). length a - i)")
     (auto simp: byte_at_def split: if_splits)

text \<open>\<open>strcmp_eq a b\<close> is the test \<^verbatim>\<open>strcmp(a, b) == 0\<close>.\<close>

definition strcmp_eq :: "string \<Rightarrow> string \<Rightarrow> bool" where
  "strcmp_eq a b = strcmp_from a b 0"

section \<open>EventChains: constants and error codes (eventchains.h)\<close>

definition EVENTCHAINS_MAX_EVENTS :: nat where "EVENTCHAINS_MAX_EVENTS = 1024"
definition EVENTCHAINS_MAX_MIDDLEWARE :: nat where "EVENTCHAINS_MAX_MIDDLEWARE = 16"
definition EVENTCHAINS_MAX_CONTEXT_ENTRIES :: nat where "EVENTCHAINS_MAX_CONTEXT_ENTRIES = 512"
definition EVENTCHAINS_MAX_CONTEXT_MEMORY :: nat where "EVENTCHAINS_MAX_CONTEXT_MEMORY = 10485760"
definition EVENTCHAINS_MAX_NAME_LENGTH :: nat where "EVENTCHAINS_MAX_NAME_LENGTH = 256"
definition EVENTCHAINS_MAX_KEY_LENGTH :: nat where "EVENTCHAINS_MAX_KEY_LENGTH = 256"
definition EVENTCHAINS_MAX_ERROR_LENGTH :: nat where "EVENTCHAINS_MAX_ERROR_LENGTH = 1024"

definition INITIAL_CAPACITY :: nat where "INITIAL_CAPACITY = 8"
definition GROWTH_FACTOR :: nat where "GROWTH_FACTOR = 2"
definition MIN_FUNCTION_POINTER :: nat where "MIN_FUNCTION_POINTER = 0x1000"

text \<open>
  \<^verbatim>\<open>size_t\<close> is 64 bits wide (the library reports \<^verbatim>\<open>Architecture: x86_64\<close>); sizes are
  natural numbers and the wrap-around is written out where the code adds or
  multiplies.  The \<^verbatim>\<open>sizeof\<close> values are those of the LP64 layout of the structs in
  eventchains.h: three words for a RefCountedValue, two for a ContextEntry.
\<close>

definition SIZE_MAX :: nat where "SIZE_MAX = 2 ^ 64 - 1"
definition sizeof_RefCountedValue :: nat where "sizeof_RefCountedValue = 24"
definition sizeof_ContextEntry :: nat where "sizeof_ContextEntry = 16"
definition sizeof_EventContext :: nat where "sizeof_EventContext = 72"

definition size_add :: "nat \<Rightarrow> nat \<Rightarrow> nat" where
  "size_add a b = (a + b) mod 2 ^ 64"

definition size_mul :: "nat \<Rightarrow> nat \<Rightarrow> nat" where
  "size_mul a b = (a * b) mod 2 ^ 64"

datatype EventChainErrorCode =
    EC_SUCCESS
  | EC_ERROR_NULL_POINTER
  | EC_ERROR_INVALID_PARAMETER
  | EC_ERROR_OUT_OF_MEMORY
  | EC_ERROR_CAPACITY_EXCEEDED
  | EC_ERROR_KEY_TOO_LONG
  | EC_ERROR_NAME_TOO_LONG
  | EC_ERROR_NOT_FOUND
  | EC_ERROR_OVERFLOW
  | EC_ERROR_EVENT_EXECUTION_FAILED
  | EC_ERROR_MIDDLEWARE_FAILED
  | EC_ERROR_REENTRANCY
  | EC_ERROR_MEMORY_LIMIT_EXCEEDED
  | EC_ERROR_INVALID_FUNCTION_POINTER
  | EC_ERROR_TIME_CONVERSION
  | EC_ERROR_SIGNAL_INTERRUPTED

datatype FaultToleranceMode =
    FAULT_TOLERANCE_STRICT
  | FAULT_TOLERANCE_LENIENT
  | FAULT_TOLERANCE_BEST_EFFORT
  | FAULT_TOLERANCE_CUSTOM

datatype ErrorDetailLevel = ERROR_DETAIL_FULL | ERROR_DETAIL_MINIMAL

section \<open>Utility functions (eventchains.c)\<close>

text \<open>A possibly-NULL pointer argument is an \<open>option\<close>; \<open>None\<close> is NULL.\<close>

function strnlen_loop :: "string \<Rightarrow> nat \<Rightarrow> nat \<Rightarrow> nat" where
  "strnlen_loop str maxlen len =
     (if len < maxlen \<and> byte_at str len \<noteq> 0
      then strnlen_loop str maxlen (len + 1) else len)"
  by pat_completeness auto
termination
  by (relation "measure (\<lambda>(str, maxlen, len). maxlen - len)") auto

definition safe_strnlen :: "string option \<Rightarrow> nat \<Rightarrow> nat" where
  "safe_strnlen str maxlen =
     (case str of
        None \<Rightarrow> 0
      | Some s \<Rightarrow> if maxlen = 0 then 0 else strnlen_loop s maxlen 0)"

definition safe_multiply :: "nat \<Rightarrow> nat \<Rightarrow> nat option" where
  "safe_multiply a b =
     (if a = 0 \<or> b = 0 then Some 0
      else if a > SIZE_MAX div b then None
      else Some (size_mul a b))"

text \<open>A function pointer is its address; 0 is NULL.\<close>

type_synonym func_ptr = nat

definition is_valid_function_pointer :: "func_ptr \<Rightarrow> bool" where
  "is_valid_function_pointer p = (p \<noteq> 0 \<and> p \<ge> MIN_FUNCTION_POINTER)"

function ct_loop :: "string \<Rightarrow> string \<Rightarrow> nat \<Rightarrow> nat \<Rightarrow> nat \<Rightarrow> nat \<times> nat" where
  "ct_loop a b max_len i result =
     (if i < max_len then
        (let result' = (result OR (byte_at a i XOR byte_at b i)) mod 256 in
         if byte_at a i = 0 \<or> byte_at b i = 0 then (i, result')
         else ct_loop a b max_len (i + 1) result')
      else (i, result))"
  by pat_completeness auto
termination
  by (relation "measure (\<lambda>(a, b, max_len, i, result). max_len - i)") auto

definition constant_time_strcmp :: "string option \<Rightarrow> string option \<Rightarrow> nat \<Rightarrow> bool" where
  "constant_time_strcmp a b max_len =
     (case (a, b) of
        (Some a', Some b') \<Rightarrow>
          (case ct_loop a' b' max_len 0 0 of
             (i, result) \<Rightarrow> result = 0 \<and> byte_at a' i = byte_at b' i)
      | _ \<Rightarrow> False)"

section \<open>Reference-counted values and the context (eventchains.c)\<close>

text \<open>
  The payload \<^verbatim>\<open>void *data\<close> is a pointer to a value of an arbitrary type \<open>'v\<close>,
  \<open>None\<close> when it is NULL.  The context owns one wrapper per entry; the entry
  array with its \<^verbatim>\<open>count\<close> live slots is the list \<open>ctx_entries\<close>, so \<^verbatim>\<open>count\<close> is
  its length.  A wrapper is stored by value in its entry: a reference retained
  outside the context (\<^verbatim>\<open>event_context_get_ref\<close>) shows in the count only.
\<close>

record 'v RefCountedValue =
  rcv_data :: "'v option"
  rcv_cleanup :: func_ptr
  rcv_ref_count :: nat

record 'v ContextEntry =
  ce_key :: string
  ce_value :: "'v RefCountedValue"

record 'v EventContext =
  ctx_entries :: "'v ContextEntry list"
  ctx_capacity :: nat
  ctx_total_memory_bytes :: nat

definition ctx_count :: "'v EventContext \<Rightarrow> nat" where
  "ctx_count ctx = length (ctx_entries ctx)"

text \<open>
  Whether the allocator grants the three requests one call of
  \<^verbatim>\<open>event_context_set_with_cleanup\<close> can make.
\<close>

record set_allocs =
  malloc_value_ok :: bool
  realloc_entries_ok :: bool
  strdup_key_ok :: bool

definition ref_counted_value_create ::
  "bool \<Rightarrow> 'v option \<Rightarrow> func_ptr \<Rightarrow> 'v RefCountedValue option" where
  "ref_counted_value_create malloc_ok d cl =
     (if cl \<noteq> 0 \<and> \<not> is_valid_function_pointer cl then None
      else if \<not> malloc_ok then None
      else Some \<lparr>rcv_data = d, rcv_cleanup = cl, rcv_ref_count = 1\<rparr>)"

text \<open>
  A call \<^verbatim>\<open>cleanup(data)\<close> of a cleanup callback is the pair of the callback's
  address and the payload it is applied to.  \<^verbatim>\<open>ref_counted_value_release\<close> returns
  its code, the wrapper that remains (\<open>None\<close> once it is freed) and the cleanup
  calls it made: dropping the last reference runs the callback on the payload when
  both are non-NULL.
\<close>

type_synonym 'v cleanup_call = "func_ptr \<times> 'v"

definition ref_counted_value_release ::
  "'v RefCountedValue option
     \<Rightarrow> EventChainErrorCode \<times> 'v RefCountedValue option \<times> 'v cleanup_call list" where
  "ref_counted_value_release val =
     (case val of
        None \<Rightarrow> (EC_ERROR_NULL_POINTER, None, [])
      | Some w \<Rightarrow>
          (let old_count = rcv_ref_count w in
           if old_count = 1 then
             (EC_SUCCESS, None,
              (case rcv_data w of
                 Some d \<Rightarrow> if rcv_cleanup w \<noteq> 0 then [(rcv_cleanup w, d)] else []
               | None \<Rightarrow> []))
           else
             (EC_SUCCESS, Some (w\<lparr>rcv_ref_count := size_add old_count SIZE_MAX\<rparr>), [])))"

definition ref_counted_value_get_data :: "'v RefCountedValue option \<Rightarrow> 'v option" where
  "ref_counted_value_get_data val = (case val of None \<Rightarrow> None | Some w \<Rightarrow> rcv_data w)"

definition event_context_create :: "'v EventContext" where
  "event_context_create =
     \<lparr>ctx_entries = [], ctx_capacity = INITIAL_CAPACITY,
      ctx_total_memory_bytes =
        size_add sizeof_EventContext (size_mul INITIAL_CAPACITY sizeof_ContextEntry)\<rparr>"

text \<open>\<open>find_from\<close> is the loop of \<^verbatim>\<open>find_entry\<close> from index \<open>i\<close>; \<open>None\<close> is \<^verbatim>\<open>-1\<close>.\<close>

fun find_from :: "'v ContextEntry list \<Rightarrow> string \<Rightarrow> nat \<Rightarrow> nat option" where
  "find_from [] k i = None"
| "find_from (e # es) k i =
     (if strcmp_eq (ce_key e) k then Some i else find_from es k (i + 1))"

definition find_entry :: "'v EventContext \<Rightarrow> string \<Rightarrow> nat option" where
  "find_entry ctx k = find_from (ctx_entries ctx) k 0"

definition ensure_capacity ::
  "bool \<Rightarrow> 'v EventContext \<Rightarrow> EventChainErrorCode \<times> 'v EventContext" where
  "ensure_capacity realloc_ok ctx =
     (if ctx_count ctx < ctx_capacity ctx then (EC_SUCCESS, ctx)
      else if ctx_count ctx \<ge> EVENTCHAINS_MAX_CONTEXT_ENTRIES
        then (EC_ERROR_CAPACITY_EXCEEDED, ctx)
      else
        (let c = size_mul (ctx_capacity ctx) GROWTH_FACTOR;
             new_capacity = (if c > EVENTCHAINS_MAX_CONTEXT_ENTRIES
                             then EVENTCHAINS_MAX_CONTEXT_ENTRIES else c)
         in case safe_multiply new_capacity sizeof_ContextEntry of
              None \<Rightarrow> (EC_ERROR_OVERFLOW, ctx)
            | Some new_size \<Rightarrow>
                if \<not> realloc_ok then (EC_ERROR_OUT_OF_MEMORY, ctx)
                else (EC_SUCCESS, ctx\<lparr>ctx_capacity := new_capacity\<rparr>)))"

text \<open>
  \<^verbatim>\<open>event_context_set_with_cleanup\<close> returns its code, the context as the call leaves
  it, and the cleanup calls made through \<^verbatim>\<open>ref_counted_value_release\<close>: on the old
  wrapper when an entry is overwritten, and on the freshly created wrapper when the
  entry array cannot take it or the key cannot be copied.
\<close>

definition event_context_set_with_cleanup ::
  "set_allocs \<Rightarrow> 'v EventContext option \<Rightarrow> string option \<Rightarrow> 'v option \<Rightarrow> func_ptr
     \<Rightarrow> EventChainErrorCode \<times> 'v EventContext option \<times> 'v cleanup_call list" where
  "event_context_set_with_cleanup heap context key v cl =
     (case (context, key) of
        (Some ctx, Some k) \<Rightarrow>
          (let key_len = safe_strnlen key (EVENTCHAINS_MAX_KEY_LENGTH + 1) in
           if key_len = 0 \<or> key_len > EVENTCHAINS_MAX_KEY_LENGTH
             then (EC_ERROR_KEY_TOO_LONG, context, [])
           else
             (let additional_memory =
                    size_add (size_add key_len 1) sizeof_RefCountedValue in
              if size_add (ctx_total_memory_bytes ctx) additional_memory
                   > EVENTCHAINS_MAX_CONTEXT_MEMORY
                then (EC_ERROR_MEMORY_LIMIT_EXCEEDED, context, [])
              else
                (let idx = find_entry ctx k in
                 case ref_counted_value_create (malloc_value_ok heap) v cl of
                   None \<Rightarrow> (EC_ERROR_OUT_OF_MEMORY, context, [])
                 | Some ref_value \<Rightarrow>
                     (case idx of
                        Some i \<Rightarrow>
                          (case ref_counted_value_release
                                  (Some (ce_value (ctx_entries ctx ! i))) of
                             (rc, old, calls) \<Rightarrow>
                               (EC_SUCCESS,
                                Some (ctx\<lparr>ctx_entries :=
                                  (ctx_entries ctx)
                                    [i := (ctx_entries ctx ! i)\<lparr>ce_value := ref_value\<rparr>]\<rparr>),
                                calls))
                      | None \<Rightarrow>
                          (case ensure_capacity (realloc_entries_ok heap) ctx of
                             (err, ctx') \<Rightarrow>
                               if err \<noteq> EC_SUCCESS then
                                 (case ref_counted_value_release (Some ref_value) of
                                    (rc, gone, calls) \<Rightarrow> (err, Some ctx', calls))
                               else if \<not> strdup_key_ok heap then
                                 (case ref_counted_value_release (Some ref_value) of
                                    (rc, gone, calls) \<Rightarrow>
                                      (EC_ERROR_OUT_OF_MEMORY, Some ctx', calls))
                               else
                                 (EC_SUCCESS,
                                  Some (ctx'\<lparr>ctx_entries :=
                                          ctx_entries ctx' @
                                            [\<lparr>ce_key = strdup k, ce_value = ref_value\<rparr>],
                                        ctx_total_memory_bytes :=
                                          size_add (ctx_total_memory_bytes ctx')
                                            additional_memory\<rparr>),
                                  []))))))
      | _ \<Rightarrow> (EC_ERROR_NULL_POINTER, context, []))"

definition event_context_set ::
  "set_allocs \<Rightarrow> 'v EventContext option \<Rightarrow> string option \<Rightarrow> 'v option
     \<Rightarrow> EventChainErrorCode \<times> 'v EventContext option \<times> 'v cleanup_call list" where
  "event_context_set heap context key v =
     event_context_set_with_cleanup heap context key v 0"

text \<open>
  \<^verbatim>\<open>event_context_get\<close> writes the payload pointer through \<^verbatim>\<open>value_out\<close> on success;
  the model returns what was written beside the code (\<open>None\<close> when nothing was).  A
  NULL \<^verbatim>\<open>value_out\<close> is the flag \<open>value_out_null\<close>.
\<close>

definition event_context_get ::
  "'v EventContext option \<Rightarrow> string option \<Rightarrow> bool
     \<Rightarrow> EventChainErrorCode \<times> 'v option option" where
  "event_context_get context key value_out_null =
     (case (context, key) of
        (Some ctx, Some k) \<Rightarrow>
          if value_out_null then (EC_ERROR_NULL_POINTER, None)
          else
            (case find_entry ctx k of
               None \<Rightarrow> (EC_ERROR_NOT_FOUND, None)
             | Some idx \<Rightarrow>
                 (EC_SUCCESS,
                  Some (ref_counted_value_get_data
                          (Some (ce_value (ctx_entries ctx ! idx))))))
      | _ \<Rightarrow> (EC_ERROR_NULL_POINTER, None))"

text \<open>The constant-time walk of \<^verbatim>\<open>event_context_has\<close>: every entry is compared.\<close>

fun has_walk :: "'v ContextEntry list \<Rightarrow> string \<Rightarrow> bool \<Rightarrow> bool" where
  "has_walk [] k found = found"
| "has_walk (e # es) k found =
     has_walk es k
       (if constant_time_strcmp (Some (ce_key e)) (Some k) EVENTCHAINS_MAX_KEY_LENGTH
        then True else found)"

definition event_context_has ::
  "'v EventContext option \<Rightarrow> string option \<Rightarrow> bool \<Rightarrow> bool" where
  "event_context_has context key constant_time =
     (case (context, key) of
        (Some ctx, Some k) \<Rightarrow>
          if constant_time then has_walk (ctx_entries ctx) k False
          else find_entry ctx k \<noteq> None
      | _ \<Rightarrow> False)"

definition event_context_remove ::
  "'v EventContext option \<Rightarrow> string option
     \<Rightarrow> EventChainErrorCode \<times> 'v EventContext option \<times> 'v cleanup_call list" where
  "event_context_remove context key =
     (case (context, key) of
        (Some ctx, Some k) \<Rightarrow>
          (case find_entry ctx k of
             None \<Rightarrow> (EC_ERROR_NOT_FOUND, context, [])
           | Some idx \<Rightarrow>
               (case ref_counted_value_release
                       (Some (ce_value (ctx_entries ctx ! idx))) of
                  (rc, old, calls) \<Rightarrow>
                    (EC_SUCCESS,
                     Some (ctx\<lparr>ctx_entries :=
                       take idx (ctx_entries ctx) @ drop (idx + 1) (ctx_entries ctx)\<rparr>),
                     calls)))
      | _ \<Rightarrow> (EC_ERROR_NULL_POINTER, context, []))"

text \<open>
  The two bounds the entry array obeys between calls: the live slots fit the
  allocation, and the allocation never exceeds the cap.
\<close>

definition context_wf :: "'v EventContext \<Rightarrow> bool" where
  "context_wf ctx \<longleftrightarrow>
     ctx_count ctx \<le> ctx_capacity ctx \<and> ctx_capacity ctx \<le> EVENTCHAINS_MAX_CONTEXT_ENTRIES"

section \<open>Results and error messages (eventchains.c)\<close>

text \<open>
  \<^verbatim>\<open>printf\<close>'s \<^verbatim>\<open>%d\<close> and \<^verbatim>\<open>%zu\<close>: the decimal digits of a number, with a minus sign
  for a negative one.
\<close>

definition digit_char :: "nat \<Rightarrow> char" where
  "digit_char n = char_of (48 + n)"

function string_of_nat :: "nat \<Rightarrow> string" where
  "string_of_nat n =
     (if n < 10 then [digit_char n]
      else string_of_nat (n div 10) @ [digit_char (n mod 10)])"
  by pat_completeness auto
termination
  by (relation "measure (\<lambda>n. n)") auto

definition string_of_int :: "int \<Rightarrow> string" where
  "string_of_int i =
     (if i < 0 then CHR ''-'' # string_of_nat (nat (- i)) else string_of_nat (nat i))"

record EventResult =
  er_success :: bool
  er_error_message :: string
  er_error_code :: EventChainErrorCode

record FailureInfo =
  fi_event_name :: string
  fi_error_message :: string
  fi_error_code :: EventChainErrorCode

text \<open>
  \<^verbatim>\<open>ChainResult.failures\<close> is \<open>None\<close> while the pointer is NULL and otherwise the
  records written so far.
\<close>

record ChainResult =
  cr_success :: bool
  cr_failures :: "FailureInfo list option"
  cr_failure_count :: nat

fun error_code_value :: "EventChainErrorCode \<Rightarrow> nat" where
  "error_code_value EC_SUCCESS = 0"
| "error_code_value EC_ERROR_NULL_POINTER = 1"
| "error_code_value EC_ERROR_INVALID_PARAMETER = 2"
| "error_code_value EC_ERROR_OUT_OF_MEMORY = 3"
| "error_code_value EC_ERROR_CAPACITY_EXCEEDED = 4"
| "error_code_value EC_ERROR_KEY_TOO_LONG = 5"
| "error_code_value EC_ERROR_NAME_TOO_LONG = 6"
| "error_code_value EC_ERROR_NOT_FOUND = 7"
| "error_code_value EC_ERROR_OVERFLOW = 8"
| "error_code_value EC_ERROR_EVENT_EXECUTION_FAILED = 9"
| "error_code_value EC_ERROR_MIDDLEWARE_FAILED = 10"
| "error_code_value EC_ERROR_REENTRANCY = 11"
| "error_code_value EC_ERROR_MEMORY_LIMIT_EXCEEDED = 12"
| "error_code_value EC_ERROR_INVALID_FUNCTION_POINTER = 13"
| "error_code_value EC_ERROR_TIME_CONVERSION = 14"
| "error_code_value EC_ERROR_SIGNAL_INTERRUPTED = 15"

fun event_chain_error_string :: "EventChainErrorCode \<Rightarrow> string" where
  "event_chain_error_string EC_SUCCESS = ''Success''"
| "event_chain_error_string EC_ERROR_NULL_POINTER = ''NULL pointer''"
| "event_chain_error_string EC_ERROR_INVALID_PARAMETER = ''Invalid parameter''"
| "event_chain_error_string EC_ERROR_OUT_OF_MEMORY = ''Out of memory''"
| "event_chain_error_string EC_ERROR_CAPACITY_EXCEEDED = ''Capacity exceeded''"
| "event_chain_error_string EC_ERROR_KEY_TOO_LONG = ''Key too long''"
| "event_chain_error_string EC_ERROR_NAME_TOO_LONG = ''Name too long''"
| "event_chain_error_string EC_ERROR_NOT_FOUND = ''Not found''"
| "event_chain_error_string EC_ERROR_OVERFLOW = ''Arithmetic overflow''"
| "event_chain_error_string EC_ERROR_EVENT_EXECUTION_FAILED = ''Event execution failed''"
| "event_chain_error_string EC_ERROR_MIDDLEWARE_FAILED = ''Middleware failed''"
| "event_chain_error_string EC_ERROR_REENTRANCY = ''Reentrancy detected''"
| "event_chain_error_string EC_ERROR_MEMORY_LIMIT_EXCEEDED = ''Memory limit exceeded''"
| "event_chain_error_string EC_ERROR_INVALID_FUNCTION_POINTER = ''Invalid function pointer''"
| "event_chain_error_string EC_ERROR_TIME_CONVERSION = ''Time conversion error''"
| "event_chain_error_string EC_ERROR_SIGNAL_INTERRUPTED = ''Signal interrupted''"

text \<open>
  \<^verbatim>\<open>safe_strncpy\<close> copies at most \<^verbatim>\<open>dest_size - 1\<close> bytes of the source, stopping at
  its NUL; the model returns the string left in \<^verbatim>\<open>dest\<close>.
\<close>

definition safe_strncpy :: "string option \<Rightarrow> nat \<Rightarrow> string" where
  "safe_strncpy src dest_size =
     (case src of None \<Rightarrow> [] | Some s \<Rightarrow> take (dest_size - 1) (cstr s))"

definition event_result_success :: EventResult where
  "event_result_success =
     \<lparr>er_success = True, er_error_message = [], er_error_code = EC_SUCCESS\<rparr>"

definition event_result_failure ::
  "string option \<Rightarrow> EventChainErrorCode \<Rightarrow> ErrorDetailLevel \<Rightarrow> EventResult" where
  "event_result_failure error_message error_code detail_level =
     \<lparr>er_success = False,
      er_error_message =
        (if detail_level = ERROR_DETAIL_MINIMAL
           then take (EVENTCHAINS_MAX_ERROR_LENGTH - 1)
                  (''Error code: '' @ string_of_nat (error_code_value error_code))
         else if error_message \<noteq> None
           then safe_strncpy error_message EVENTCHAINS_MAX_ERROR_LENGTH
         else safe_strncpy (Some (event_chain_error_string error_code))
                EVENTCHAINS_MAX_ERROR_LENGTH),
      er_error_code = error_code\<rparr>"

section \<open>Events, middleware and the chain (eventchains.c)\<close>

text \<open>
  An event callback receives the context and its user data and returns its
  \<^verbatim>\<open>EventResult\<close>; what it does to the context through the pointer is the context it
  returns.  A middleware callback receives in addition the continuation \<^verbatim>\<open>next\<close>.
  A NULL \<^verbatim>\<open>execute\<close> pointer of an event and a NULL \<^verbatim>\<open>user_data\<close> are \<open>None\<close>.
\<close>

record ('v, 'u) ChainableEvent =
  ev_execute :: "('v EventContext \<Rightarrow> 'u option \<Rightarrow> EventResult \<times> 'v EventContext) option"
  ev_user_data :: "'u option"
  ev_name :: string

type_synonym ('v, 'u) next_fn =
  "('v, 'u) ChainableEvent \<Rightarrow> 'v EventContext \<Rightarrow> EventResult \<times> 'v EventContext"

record ('v, 'u) EventMiddleware =
  mw_execute :: "('v, 'u) ChainableEvent \<Rightarrow> 'v EventContext \<Rightarrow> ('v, 'u) next_fn \<Rightarrow> 'u option
                   \<Rightarrow> EventResult \<times> 'v EventContext"
  mw_user_data :: "'u option"
  mw_name :: string

text \<open>
  The chain stores its failure handler as a function pointer, 0 when none is
  registered.
\<close>

record ('v, 'u) EventChain =
  ch_events :: "('v, 'u) ChainableEvent list"
  ch_event_capacity :: nat
  ch_middlewares :: "('v, 'u) EventMiddleware list"
  ch_middleware_capacity :: nat
  ch_context :: "'v EventContext"
  ch_fault_tolerance :: FaultToleranceMode
  ch_error_detail_level :: ErrorDetailLevel
  ch_failure_handler :: func_ptr
  ch_failure_handler_data :: "'u option"
  ch_is_executing :: int
  ch_signal_interrupted :: int

definition event_chain_create_with_detail ::
  "FaultToleranceMode \<Rightarrow> ErrorDetailLevel \<Rightarrow> ('v, 'u) EventChain" where
  "event_chain_create_with_detail mode detail_level =
     \<lparr>ch_events = [], ch_event_capacity = 0,
      ch_middlewares = [], ch_middleware_capacity = 0,
      ch_context = event_context_create,
      ch_fault_tolerance = mode, ch_error_detail_level = detail_level,
      ch_failure_handler = 0, ch_failure_handler_data = None,
      ch_is_executing = 0, ch_signal_interrupted = 0\<rparr>"

definition event_chain_create :: "FaultToleranceMode \<Rightarrow> ('v, 'u) EventChain" where
  "event_chain_create mode = event_chain_create_with_detail mode ERROR_DETAIL_FULL"

definition ensure_event_capacity ::
  "bool \<Rightarrow> ('v, 'u) EventChain \<Rightarrow> EventChainErrorCode \<times> ('v, 'u) EventChain" where
  "ensure_event_capacity realloc_ok chain =
     (if length (ch_events chain) < ch_event_capacity chain then (EC_SUCCESS, chain)
      else if length (ch_events chain) \<ge> EVENTCHAINS_MAX_EVENTS
        then (EC_ERROR_CAPACITY_EXCEEDED, chain)
      else
        (let c = (if ch_event_capacity chain = 0 then INITIAL_CAPACITY
                  else size_mul (ch_event_capacity chain) GROWTH_FACTOR);
             new_capacity = (if c > EVENTCHAINS_MAX_EVENTS then EVENTCHAINS_MAX_EVENTS else c)
         in case safe_multiply new_capacity 8 of
              None \<Rightarrow> (EC_ERROR_OVERFLOW, chain)
            | Some new_size \<Rightarrow>
                if \<not> realloc_ok then (EC_ERROR_OUT_OF_MEMORY, chain)
                else (EC_SUCCESS, chain\<lparr>ch_event_capacity := new_capacity\<rparr>)))"

definition event_chain_add_event ::
  "bool \<Rightarrow> ('v, 'u) EventChain option \<Rightarrow> ('v, 'u) ChainableEvent option
     \<Rightarrow> EventChainErrorCode \<times> ('v, 'u) EventChain option" where
  "event_chain_add_event realloc_ok chain event =
     (case (chain, event) of
        (Some c, Some e) \<Rightarrow>
          if ch_is_executing c \<noteq> 0 then (EC_ERROR_REENTRANCY, chain)
          else
            (case ensure_event_capacity realloc_ok c of
               (err, c') \<Rightarrow>
                 if err \<noteq> EC_SUCCESS then (err, Some c')
                 else (EC_SUCCESS, Some (c'\<lparr>ch_events := ch_events c' @ [e]\<rparr>)))
      | _ \<Rightarrow> (EC_ERROR_NULL_POINTER, chain))"

definition ensure_middleware_capacity ::
  "bool \<Rightarrow> ('v, 'u) EventChain \<Rightarrow> EventChainErrorCode \<times> ('v, 'u) EventChain" where
  "ensure_middleware_capacity realloc_ok chain =
     (if length (ch_middlewares chain) < ch_middleware_capacity chain then (EC_SUCCESS, chain)
      else if length (ch_middlewares chain) \<ge> EVENTCHAINS_MAX_MIDDLEWARE
        then (EC_ERROR_CAPACITY_EXCEEDED, chain)
      else
        (let c = (if ch_middleware_capacity chain = 0 then INITIAL_CAPACITY
                  else size_mul (ch_middleware_capacity chain) GROWTH_FACTOR);
             new_capacity = (if c > EVENTCHAINS_MAX_MIDDLEWARE
                             then EVENTCHAINS_MAX_MIDDLEWARE else c)
         in case safe_multiply new_capacity 8 of
              None \<Rightarrow> (EC_ERROR_OVERFLOW, chain)
            | Some new_size \<Rightarrow>
                if \<not> realloc_ok then (EC_ERROR_OUT_OF_MEMORY, chain)
                else (EC_SUCCESS, chain\<lparr>ch_middleware_capacity := new_capacity\<rparr>)))"

definition event_chain_use_middleware ::
  "bool \<Rightarrow> ('v, 'u) EventChain option \<Rightarrow> ('v, 'u) EventMiddleware option
     \<Rightarrow> EventChainErrorCode \<times> ('v, 'u) EventChain option" where
  "event_chain_use_middleware realloc_ok chain middleware =
     (case (chain, middleware) of
        (Some c, Some m) \<Rightarrow>
          if ch_is_executing c \<noteq> 0 then (EC_ERROR_REENTRANCY, chain)
          else
            (case ensure_middleware_capacity realloc_ok c of
               (err, c') \<Rightarrow>
                 if err \<noteq> EC_SUCCESS then (err, Some c')
                 else (EC_SUCCESS, Some (c'\<lparr>ch_middlewares := ch_middlewares c' @ [m]\<rparr>)))
      | _ \<Rightarrow> (EC_ERROR_NULL_POINTER, chain))"

definition event_chain_set_failure_handler ::
  "('v, 'u) EventChain option \<Rightarrow> func_ptr \<Rightarrow> 'u option
     \<Rightarrow> EventChainErrorCode \<times> ('v, 'u) EventChain option" where
  "event_chain_set_failure_handler chain handler user_data =
     (case chain of
        None \<Rightarrow> (EC_ERROR_NULL_POINTER, chain)
      | Some c \<Rightarrow>
          (EC_SUCCESS,
           Some (c\<lparr>ch_failure_handler := handler,
                   ch_failure_handler_data := user_data\<rparr>)))"

definition execute_event_direct :: "('v, 'u) next_fn" where
  "execute_event_direct event context =
     (case ev_execute event of
        None \<Rightarrow>
          (event_result_failure (Some ''Invalid event'') EC_ERROR_INVALID_FUNCTION_POINTER
             ERROR_DETAIL_FULL, context)
      | Some f \<Rightarrow> f context (ev_user_data event))"

text \<open>
  \<^verbatim>\<open>execute_next_middleware\<close> at index \<^verbatim>\<open>current_index\<close> is \<open>execute_next_middleware\<close>
  on the middlewares from that index on: the first of them runs with, as its
  \<^verbatim>\<open>next\<close>, the same function one index further.
\<close>

fun execute_next_middleware :: "('v, 'u) EventMiddleware list \<Rightarrow> ('v, 'u) next_fn" where
  "execute_next_middleware [] event context = execute_event_direct event context"
| "execute_next_middleware (m # ms) event context =
     mw_execute m event context (\<lambda>e c. execute_next_middleware ms e c) (mw_user_data m)"

definition execute_event_with_middleware ::
  "('v, 'u) EventChain \<Rightarrow> ('v, 'u) ChainableEvent \<Rightarrow> EventResult \<times> 'v EventContext" where
  "execute_event_with_middleware chain event =
     (if ch_middlewares chain = [] then execute_event_direct event (ch_context chain)
      else execute_next_middleware (ch_middlewares chain) event (ch_context chain))"

text \<open>
  A failure handler is called with the chain itself, the failed event, a pointer
  to the event's result and the registered user data.  Through the two pointers it
  can change every field of the chain (its policy, its handler registration, its
  context, its event array) and the result; the model of a handler returns, with
  its verdict, the chain and the result as it leaves them.  The code that stands at
  each function address is given by a table.
\<close>

type_synonym ('v, 'u) failure_handler =
  "('v, 'u) EventChain \<Rightarrow> ('v, 'u) ChainableEvent \<Rightarrow> EventResult \<Rightarrow> 'u option
     \<Rightarrow> bool \<times> ('v, 'u) EventChain \<times> EventResult"

type_synonym ('v, 'u) handler_table = "func_ptr \<Rightarrow> ('v, 'u) failure_handler"

text \<open>
  The \<^verbatim>\<open>switch\<close> on the fault-tolerance mode in \<^verbatim>\<open>event_chain_execute\<close>: the value of
  \<^verbatim>\<open>should_continue\<close> after a failed event, with the chain and the event result as
  the handler (if it was called) left them.
\<close>

definition should_continue_after ::
  "('v, 'u) handler_table \<Rightarrow> ('v, 'u) EventChain \<Rightarrow> ('v, 'u) ChainableEvent \<Rightarrow> EventResult
     \<Rightarrow> bool \<times> ('v, 'u) EventChain \<times> EventResult" where
  "should_continue_after handlers chain event event_result =
     (case ch_fault_tolerance chain of
        FAULT_TOLERANCE_STRICT \<Rightarrow> (False, chain, event_result)
      | FAULT_TOLERANCE_LENIENT \<Rightarrow> (True, chain, event_result)
      | FAULT_TOLERANCE_BEST_EFFORT \<Rightarrow> (True, chain, event_result)
      | FAULT_TOLERANCE_CUSTOM \<Rightarrow>
          if ch_failure_handler chain \<noteq> 0
            then handlers (ch_failure_handler chain) chain event event_result
                   (ch_failure_handler_data chain)
          else (False, chain, event_result))"

definition record_failure :: "('v, 'u) ChainableEvent \<Rightarrow> EventResult \<Rightarrow> FailureInfo" where
  "record_failure event event_result =
     \<lparr>fi_event_name = safe_strncpy (Some (ev_name event)) EVENTCHAINS_MAX_NAME_LENGTH,
      fi_error_message =
        safe_strncpy (Some (er_error_message event_result)) EVENTCHAINS_MAX_ERROR_LENGTH,
      fi_error_code = er_error_code event_result\<rparr>"

text \<open>
  The state of the \<^verbatim>\<open>for\<close> loop of \<^verbatim>\<open>event_chain_execute\<close>: the chain, the result
  under construction, \<^verbatim>\<open>failure_capacity\<close>, the index \<^verbatim>\<open>i\<close>, and how the loop stands:
  running, left by \<^verbatim>\<open>break\<close>, or left because the code read or wrote outside an
  array (its behaviour is then undefined).
\<close>

datatype loop_status = LOOP_RUNNING | LOOP_BREAK | LOOP_UNDEFINED

record ('v, 'u) exec_state =
  xs_chain :: "('v, 'u) EventChain"
  xs_result :: ChainResult
  xs_failure_capacity :: nat
  xs_i :: nat
  xs_status :: loop_status

definition init_state :: "('v, 'u) EventChain \<Rightarrow> ('v, 'u) exec_state" where
  "init_state chain =
     \<lparr>xs_chain = chain,
      xs_result = \<lparr>cr_success = True, cr_failures = None, cr_failure_count = 0\<rparr>,
      xs_failure_capacity = 0, xs_i = 0, xs_status = LOOP_RUNNING\<rparr>"

text \<open>The loop test \<^verbatim>\<open>i < chain->event_count\<close>, read from the chain as it is now.\<close>

definition loop_cond :: "('v, 'u) exec_state \<Rightarrow> bool" where
  "loop_cond s \<longleftrightarrow> xs_status s = LOOP_RUNNING \<and> xs_i s < length (ch_events (xs_chain s))"

text \<open>
  One iteration of the loop, with the \<^verbatim>\<open>i++\<close> that follows it.  Every field of the
  chain is read where the code reads it: the event and the middlewares before the
  event runs, the mode, the handler and its data after it, and \<^verbatim>\<open>chain->events[i]\<close>
  again, after the handler, for the name of the failure record.
  \<open>realloc_ok n\<close> tells whether the allocator grants the failure array room for
  \<open>n\<close> records.  Two accesses fall outside an array: the record written when a later
  growth of an existing failure array is refused (one slot past the allocation), and
  \<^verbatim>\<open>chain->events[i]\<close> when the handler has left fewer than \<open>i + 1\<close> events.
\<close>

definition exec_body ::
  "('v, 'u) handler_table \<Rightarrow> (nat \<Rightarrow> bool) \<Rightarrow> ('v, 'u) exec_state \<Rightarrow> ('v, 'u) exec_state" where
  "exec_body handlers realloc_ok s =
     (let chain = xs_chain s; i = xs_i s; result = xs_result s;
          failure_capacity = xs_failure_capacity s
      in case execute_event_with_middleware chain (ch_events chain ! i) of
           (event_result, context1) \<Rightarrow>
             (let chain1 = chain\<lparr>ch_context := context1\<rparr> in
              if er_success event_result then s\<lparr>xs_chain := chain1, xs_i := i + 1\<rparr>
              else
                (case should_continue_after handlers chain1 (ch_events chain1 ! i)
                        event_result of
                   (should_continue, chain2, event_result2) \<Rightarrow>
                     (let grow = (cr_failure_count result \<ge> failure_capacity);
                          capacity' = (if grow
                                       then (if failure_capacity = 0 then 4
                                             else size_mul failure_capacity 2)
                                       else failure_capacity);
                          refused = (grow \<and> \<not> realloc_ok capacity');
                          failures' = (if grow \<and> \<not> refused
                                       then Some (case cr_failures result of
                                                    None \<Rightarrow> [] | Some fs \<Rightarrow> fs)
                                       else cr_failures result);
                          should_continue' = (if refused then False else should_continue)
                      in case failures' of
                           None \<Rightarrow>
                             if \<not> should_continue'
                               then s\<lparr>xs_chain := chain2,
                                      xs_result := result\<lparr>cr_success := False\<rparr>,
                                      xs_failure_capacity := capacity',
                                      xs_status := LOOP_BREAK\<rparr>
                             else s\<lparr>xs_chain := chain2, xs_failure_capacity := capacity',
                                    xs_i := i + 1\<rparr>
                         | Some fs \<Rightarrow>
                             if refused \<or> i \<ge> length (ch_events chain2)
                               then s\<lparr>xs_chain := chain2, xs_failure_capacity := capacity',
                                      xs_status := LOOP_UNDEFINED\<rparr>
                             else
                               (let result1 =
                                      result\<lparr>cr_failures :=
                                               Some (fs @ [record_failure (ch_events chain2 ! i)
                                                             event_result2]),
                                             cr_failure_count :=
                                               size_add (cr_failure_count result) 1\<rparr>
                                in if \<not> should_continue'
                                     then s\<lparr>xs_chain := chain2,
                                            xs_result := result1\<lparr>cr_success := False\<rparr>,
                                            xs_failure_capacity := capacity',
                                            xs_status := LOOP_BREAK\<rparr>
                                   else s\<lparr>xs_chain := chain2, xs_result := result1,
                                          xs_failure_capacity := capacity',
                                          xs_i := i + 1\<rparr>)))))"

definition rejected_result :: ChainResult where
  "rejected_result = \<lparr>cr_success = False, cr_failures = None, cr_failure_count = 0\<rparr>"

text \<open>
  How a call ends: it returns, its behaviour is undefined, or it never returns (a
  handler that lengthens the event array at every failure keeps the loop running).
\<close>

datatype 'a outcome = RETURNS 'a | UNDEFINED_BEHAVIOUR | DIVERGES

text \<open>
  \<^verbatim>\<open>event_chain_execute\<close>: \<open>result_ptr_null\<close> tells whether \<^verbatim>\<open>result_ptr\<close> is NULL; the
  result written through it is returned (\<open>None\<close> when there is nowhere to write),
  with the chain as the call leaves it.
\<close>

definition event_chain_execute ::
  "('v, 'u) handler_table \<Rightarrow> (nat \<Rightarrow> bool) \<Rightarrow> ('v, 'u) EventChain option \<Rightarrow> bool
     \<Rightarrow> (ChainResult option \<times> ('v, 'u) EventChain option) outcome" where
  "event_chain_execute handlers realloc_ok chain result_ptr_null =
     (case chain of
        None \<Rightarrow> RETURNS (if result_ptr_null then None else Some rejected_result, chain)
      | Some c \<Rightarrow>
          if result_ptr_null then RETURNS (None, chain)
          else if ch_is_executing c \<noteq> 0 then RETURNS (Some rejected_result, chain)
          else
            (case while_option loop_cond (exec_body handlers realloc_ok)
                    (init_state (c\<lparr>ch_is_executing := 1\<rparr>)) of
               None \<Rightarrow> DIVERGES
             | Some s \<Rightarrow>
                 if xs_status s = LOOP_UNDEFINED then UNDEFINED_BEHAVIOUR
                 else
                   (let c2 = (xs_chain s)\<lparr>ch_is_executing := 0\<rparr>;
                        result = xs_result s;
                        result' = (if cr_failure_count result > 0 \<and>
                                      ch_fault_tolerance c2 = FAULT_TOLERANCE_STRICT
                                   then result\<lparr>cr_success := False\<rparr> else result)
                    in RETURNS (Some result', Some c2))))"

section \<open>The run of a chain, iteration by iteration\<close>




definition grant_all :: "nat \<Rightarrow> bool" where
  "grant_all n = True"

section \<open>Tokens and the lexer (tinyllvm\_lexer.c)\<close>


datatype TokenKind =
    TOKEN_FUNC | TOKEN_VAR | TOKEN_IF | TOKEN_ELSE | TOKEN_WHILE | TOKEN_RETURN
  | TOKEN_TRUE | TOKEN_FALSE | TOKEN_INT | TOKEN_BOOL
  | TOKEN_IDENTIFIER | TOKEN_INT_LITERAL
  | TOKEN_PLUS | TOKEN_MINUS | TOKEN_STAR | TOKEN_SLASH | TOKEN_PERCENT
  | TOKEN_EQ | TOKEN_NE | TOKEN_LT | TOKEN_LE | TOKEN_GT | TOKEN_GE
  | TOKEN_AND | TOKEN_OR | TOKEN_NOT | TOKEN_ASSIGN
  | TOKEN_SEMICOLON | TOKEN_COLON | TOKEN_COMMA
  | TOKEN_LPAREN | TOKEN_RPAREN | TOKEN_LBRACE | TOKEN_RBRACE
  | TOKEN_EOF | TOKEN_ERROR

fun token_kind_to_string :: "TokenKind \<Rightarrow> string" where
  "token_kind_to_string TOKEN_FUNC = ''func''"
| "token_kind_to_string TOKEN_VAR = ''var''"
| "token_kind_to_string TOKEN_IF = ''if''"
| "token_kind_to_string TOKEN_ELSE = ''else''"
| "token_kind_to_string TOKEN_WHILE = ''while''"
| "token_kind_to_string TOKEN_RETURN = ''return''"
| "token_kind_to_string TOKEN_TRUE = ''true''"
| "token_kind_to_string TOKEN_FALSE = ''false''"
| "token_kind_to_string TOKEN_INT = ''int''"
| "token_kind_to_string TOKEN_BOOL = ''bool''"
| "token_kind_to_string TOKEN_IDENTIFIER = ''IDENTIFIER''"
| "token_kind_to_string TOKEN_INT_LITERAL = ''INT_LITERAL''"
| "token_kind_to_string TOKEN_PLUS = ''+''"
| "token_kind_to_string TOKEN_MINUS = ''-''"
| "token_kind_to_string TOKEN_STAR = ''*''"
| "token_kind_to_string TOKEN_SLASH = ''/''"
| "token_kind_to_string TOKEN_PERCENT = ''%''"
| "token_kind_to_string TOKEN_EQ = ''==''"
| "token_kind_to_string TOKEN_NE = ''!=''"
| "token_kind_to_string TOKEN_LT = ''<''"
| "token_kind_to_string TOKEN_LE = ''<=''"
| "token_kind_to_string TOKEN_GT = ''>''"
| "token_kind_to_string TOKEN_GE = ''>=''"
| "token_kind_to_string TOKEN_AND = ''&&''"
| "token_kind_to_string TOKEN_OR = ''||''"
| "token_kind_to_string TOKEN_NOT = ''!''"
| "token_kind_to_string TOKEN_ASSIGN = ''=''"
| "token_kind_to_string TOKEN_SEMICOLON = '';''"
| "token_kind_to_string TOKEN_COLON = '':''"
| "token_kind_to_string TOKEN_COMMA = '',''"
| "token_kind_to_string TOKEN_LPAREN = ''(''"
| "token_kind_to_string TOKEN_RPAREN = '')''"
| "token_kind_to_string TOKEN_LBRACE = ''{''"
| "token_kind_to_string TOKEN_RBRACE = ''}''"
| "token_kind_to_string TOKEN_EOF = ''EOF''"
| "token_kind_to_string TOKEN_ERROR = ''ERROR''"

record Token =
  tk_kind :: TokenKind
  tk_lexeme :: "string option"
  tk_length :: nat
  tk_value :: int
  tk_line :: nat
  tk_column :: nat

text \<open>
  \<^verbatim>\<open>atoi\<close> on a run of decimal digits: the value, clamped to \<^verbatim>\<open>LONG_MAX\<close> as
  \<^verbatim>\<open>strtol\<close> does, then converted to a 32-bit \<^verbatim>\<open>int\<close>.
\<close>

fun digits_value :: "string \<Rightarrow> nat \<Rightarrow> nat" where
  "digits_value [] acc = acc"
| "digits_value (c # cs) acc =
     (if 48 \<le> (of_char c :: nat) \<and> (of_char c :: nat) \<le> 57
      then digits_value cs (acc * 10 + (of_char c - 48)) else acc)"

definition atoi :: "string \<Rightarrow> int" where
  "atoi s = sint (word_of_nat (min (digits_value s 0) (2 ^ 63 - 1)) :: 32 word)"

text \<open>
  \<^verbatim>\<open>token_create\<close> copies \<^verbatim>\<open>length\<close> bytes from the \<^verbatim>\<open>lexeme\<close> pointer; the argument
  \<open>lexeme\<close> is the bytes at that pointer, \<open>None\<close> for NULL.  It returns NULL when a
  \<^verbatim>\<open>malloc\<close> is refused.
\<close>

definition token_create ::
  "bool \<Rightarrow> TokenKind \<Rightarrow> string option \<Rightarrow> nat \<Rightarrow> nat \<Rightarrow> nat \<Rightarrow> Token option" where
  "token_create malloc_ok kind lexeme len line column =
     (if \<not> malloc_ok then None
      else
        (case lexeme of
           Some bytes \<Rightarrow>
             if len > 0 then
               Some \<lparr>tk_kind = kind, tk_lexeme = Some (take len bytes), tk_length = len,
                     tk_value = (if kind = TOKEN_INT_LITERAL then atoi (take len bytes) else 0),
                     tk_line = line, tk_column = column\<rparr>
             else
               Some \<lparr>tk_kind = kind, tk_lexeme = None, tk_length = len, tk_value = 0,
                     tk_line = line, tk_column = column\<rparr>
         | None \<Rightarrow>
             Some \<lparr>tk_kind = kind, tk_lexeme = None, tk_length = len, tk_value = 0,
                   tk_line = line, tk_column = column\<rparr>))"






























section \<open>The token list of a run\<close>







section \<open>Example contexts\<close>

text \<open>
  Concrete states on which the theorems below are instantiated: a context filled
  to the cap with 512 pairwise different keys (256 runs of \<open>a\<close> and 256 runs of
  \<open>b\<close>), a small context with one entry, and an allocator that grants every
  request.
\<close>

definition wkey :: "nat \<Rightarrow> string" where
  "wkey i = replicate (Suc (i mod 256)) (if i < 256 then CHR ''a'' else CHR ''b'')"

definition full_ctx :: "nat \<Rightarrow> nat EventContext" where
  "full_ctx mem =
     \<lparr>ctx_entries = map (\<lambda>i. \<lparr>ce_key = wkey i,
            ce_value = \<lparr>rcv_data = Some i, rcv_cleanup = 0, rcv_ref_count = 1\<rparr>\<rparr>) [0..<512],
      ctx_capacity = 512, ctx_total_memory_bytes = mem\<rparr>"

definition ctx0 :: "nat EventContext" where
  "ctx0 = \<lparr>ctx_entries = [\<lparr>ce_key = ''tokens'',
            ce_value = \<lparr>rcv_data = Some 3, rcv_cleanup = 0, rcv_ref_count = 1\<rparr>\<rparr>],
      ctx_capacity = 8, ctx_total_memory_bytes = 231\<rparr>"

definition heap_ok :: set_allocs where
  "heap_ok = \<lparr>malloc_value_ok = True, realloc_entries_ok = True, strdup_key_ok = True\<rparr>"

section \<open>Example chains\<close>

text \<open>
  A chain of three events, the second of which fails, in a chosen fault-tolerance
  mode and without a failure handler, and the same chain in the middle of an
  execution.
\<close>

definition failing_event :: "(nat, nat) ChainableEvent" where
  "failing_event =
     \<lparr>ev_execute = Some (\<lambda>ctx u.
        (event_result_failure (Some ''boom'') EC_ERROR_EVENT_EXECUTION_FAILED ERROR_DETAIL_FULL,
         ctx)),
      ev_user_data = None, ev_name = ''Failing''\<rparr>"

definition passing_event :: "(nat, nat) ChainableEvent" where
  "passing_event =
     \<lparr>ev_execute = Some (\<lambda>ctx u. (event_result_success, ctx)),
      ev_user_data = None, ev_name = ''Passing''\<rparr>"

definition chain_of :: "FaultToleranceMode \<Rightarrow> (nat, nat) EventChain" where
  "chain_of mode =
     (event_chain_create mode)
       \<lparr>ch_events := [passing_event, failing_event, passing_event], ch_event_capacity := 8\<rparr>"


definition busy_chain :: "(nat, nat) EventChain" where
  "busy_chain = (chain_of FAULT_TOLERANCE_CUSTOM)\<lparr>ch_is_executing := 1\<rparr>"





definition continue_handler_ptr :: func_ptr where "continue_handler_ptr = 0x2000"





section \<open>Properties of C strings\<close>

lemma of_char_nat_eq_0_iff: "(of_char c :: nat) = 0 \<longleftrightarrow> c = CHR 0x00"
  using of_char_eq_iff [of c "CHR 0x00", where ?'a = nat] by simp

lemma cstr_nth: "i < strlen s \<Longrightarrow> cstr s ! i = s ! i"
  unfolding strlen_def cstr_def by (rule takeWhile_nth)

lemma strlen_le_length: "strlen s \<le> length s"
  unfolding strlen_def cstr_def by (rule length_takeWhile_le)

lemma byte_at_nonzero: "i < strlen s \<Longrightarrow> byte_at s i \<noteq> 0"
proof -
  assume h: "i < strlen s"
  then have "cstr s ! i \<in> set (cstr s)" by (simp add: strlen_def)
  then have "cstr s ! i \<noteq> CHR 0x00" unfolding cstr_def by (auto dest: set_takeWhileD)
  with h show ?thesis
    using strlen_le_length [of s]
    by (simp add: byte_at_def cstr_nth of_char_nat_eq_0_iff)
qed

lemma byte_at_strlen: "byte_at s (strlen s) = 0"
proof (cases "strlen s < length s")
  case True
  then have "\<not> (s ! strlen s \<noteq> CHR 0x00)"
    unfolding strlen_def cstr_def by (rule nth_length_takeWhile)
  with True show ?thesis by (simp add: byte_at_def)
next
  case False
  then show ?thesis by (simp add: byte_at_def)
qed

lemma byte_at_cstr: "i < strlen s \<Longrightarrow> byte_at s i = of_char (cstr s ! i)"
  using strlen_le_length [of s] by (simp add: byte_at_def cstr_nth)

lemma byte_at_zero_iff: "i \<le> strlen s \<Longrightarrow> byte_at s i = 0 \<longleftrightarrow> i = strlen s"
  using byte_at_nonzero [of i s] byte_at_strlen [of s] by (cases "i = strlen s") auto

lemma strnlen_loop_min:
  "len \<le> strlen s \<Longrightarrow> len \<le> maxlen \<Longrightarrow> strnlen_loop s maxlen len = min (strlen s) maxlen"
proof (induction s maxlen len rule: strnlen_loop.induct)
  case (1 str maxlen len)
  show ?case
  proof (cases "len < maxlen \<and> byte_at str len \<noteq> 0")
    case True
    then have "len \<noteq> strlen str" using byte_at_strlen [of str] by auto
    with "1.prems" True have "len + 1 \<le> strlen str" "len + 1 \<le> maxlen" by auto
    with "1.IH" True show ?thesis by (simp del: strnlen_loop.simps add: strnlen_loop.simps [of str maxlen len])
  next
    case False
    then have "len = maxlen \<or> len = strlen str"
      using "1.prems" byte_at_zero_iff [of len str] by auto
    with False "1.prems" show ?thesis
      by (auto simp del: strnlen_loop.simps simp add: strnlen_loop.simps [of str maxlen len])
  qed
qed

lemma safe_strnlen_Some: "safe_strnlen (Some s) maxlen = min (strlen s) maxlen"
  by (simp add: safe_strnlen_def strnlen_loop_min del: strnlen_loop.simps)

lemma strcmp_from_drop:
  "i \<le> strlen a \<Longrightarrow> i \<le> strlen b \<Longrightarrow>
   strcmp_from a b i \<longleftrightarrow> drop i (cstr a) = drop i (cstr b)"
proof (induction a b i rule: strcmp_from.induct)
  case (1 a b i)
  note simps = strcmp_from.simps [of a b i]
  show ?case
  proof (cases "i = strlen a \<or> i = strlen b")
    case True
    then show ?thesis
      using "1.prems" byte_at_zero_iff [of i a] byte_at_zero_iff [of i b]
      by (auto simp: simps strlen_def simp del: strcmp_from.simps)
  next
    case False
    with "1.prems" have lt: "i < strlen a" "i < strlen b" by auto
    then have nz: "byte_at a i \<noteq> 0" "byte_at b i \<noteq> 0" by (auto dest: byte_at_nonzero)
    have da: "drop i (cstr a) = cstr a ! i # drop (i + 1) (cstr a)"
      using lt by (simp add: strlen_def Cons_nth_drop_Suc)
    have db: "drop i (cstr b) = cstr b ! i # drop (i + 1) (cstr b)"
      using lt by (simp add: strlen_def Cons_nth_drop_Suc)
    show ?thesis
    proof (cases "byte_at a i = byte_at b i")
      case True
      with nz lt "1.IH" have "strcmp_from a b (i + 1) \<longleftrightarrow> drop (i + 1) (cstr a) = drop (i + 1) (cstr b)"
        by auto
      moreover from True lt have "cstr a ! i = cstr b ! i" by (simp add: byte_at_cstr)
      ultimately show ?thesis using True nz da db by (simp add: simps del: strcmp_from.simps)
    next
      case False
      with lt have "cstr a ! i \<noteq> cstr b ! i" by (auto simp add: byte_at_cstr)
      with False da db show ?thesis by (simp add: simps del: strcmp_from.simps)
    qed
  qed
qed

lemma strcmp_eq_cstr: "strcmp_eq a b \<longleftrightarrow> cstr a = cstr b"
  using strcmp_from_drop [of 0 a b] by (simp add: strcmp_eq_def del: strcmp_from.simps)

lemma cstr_idem: "cstr (cstr s) = cstr s"
  unfolding cstr_def by (simp add: takeWhile_idem)

declare strnlen_loop.simps [simp del] strcmp_from.simps [simp del] ct_loop.simps [simp del]

section \<open>Properties of the context\<close>

lemma nat_xor_eq_0_iff: "((a::nat) XOR b) = 0 \<longleftrightarrow> a = b"
  by (auto simp: bit_eq_iff bit_xor_iff)

lemma byte_at_less_256: "byte_at s i < 256"
  by (simp add: byte_at_def)

lemma nat_xor_less_256: "(a::nat) < 256 \<Longrightarrow> b < 256 \<Longrightarrow> a XOR b < 256"
proof -
  assume "a < 256" "b < 256"
  then have "a XOR b = take_bit 8 (a XOR b)" by (simp add: take_bit_xor take_bit_nat_eq_self)
  also have "\<dots> < 2 ^ 8" by (rule take_bit_nat_less_exp)
  finally show ?thesis by simp
qed

lemma nat_or_less_256: "(a::nat) < 256 \<Longrightarrow> b < 256 \<Longrightarrow> a OR b < 256"
proof -
  assume "a < 256" "b < 256"
  then have "a OR b = take_bit 8 (a OR b)" by (simp add: take_bit_or take_bit_nat_eq_self)
  also have "\<dots> < 2 ^ 8" by (rule take_bit_nat_less_exp)
  finally show ?thesis by simp
qed

lemma acc_step:
  assumes "r < 256"
  shows "(r OR (byte_at a i XOR byte_at b i)) mod 256 = 0 \<longleftrightarrow> r = 0 \<and> byte_at a i = byte_at b i"
proof -
  have "r OR (byte_at a i XOR byte_at b i) < 256"
    using assms by (intro nat_or_less_256 nat_xor_less_256 byte_at_less_256)
  then show ?thesis by (simp add: or_eq_0_iff nat_xor_eq_0_iff)
qed

lemma ct_loop_correct:
  "i \<le> strlen a \<Longrightarrow> i \<le> strlen b \<Longrightarrow> strlen a \<le> max_len \<Longrightarrow> strlen b \<le> max_len \<Longrightarrow>
   r < 256 \<Longrightarrow>
   (case ct_loop a b max_len i r of (j, r') \<Rightarrow> r' = 0 \<and> byte_at a j = byte_at b j)
     \<longleftrightarrow> (r = 0 \<and> drop i (cstr a) = drop i (cstr b))"
proof (induction a b max_len i r rule: ct_loop.induct)
  case (1 a b max_len i result)
  note simps = ct_loop.simps [of a b max_len i result]
  define r' where "r' = (result OR (byte_at a i XOR byte_at b i)) mod 256"
  have r': "r' = 0 \<longleftrightarrow> result = 0 \<and> byte_at a i = byte_at b i"
    unfolding r'_def using "1.prems" by (simp add: acc_step)
  have r'_lt: "r' < 256" unfolding r'_def by simp
  show ?case
  proof (cases "i < max_len")
    case False
    with "1.prems" have eq: "i = strlen a" "i = strlen b" by auto
    from False have "ct_loop a b max_len i result = (i, result)" by (simp add: simps)
    moreover have "byte_at a i = byte_at b i"
      using eq byte_at_strlen [of a] byte_at_strlen [of b] by metis
    moreover have "drop i (cstr a) = drop i (cstr b)" using eq by (simp add: strlen_def)
    ultimately show ?thesis by simp
  next
    case True
    show ?thesis
    proof (cases "byte_at a i = 0 \<or> byte_at b i = 0")
      case stop: True
      then have "i = strlen a \<or> i = strlen b"
        using "1.prems" byte_at_zero_iff by blast
      then have "drop i (cstr a) = drop i (cstr b) \<longleftrightarrow> byte_at a i = byte_at b i"
        using "1.prems" byte_at_zero_iff [of i a] byte_at_zero_iff [of i b]
        by (auto simp: strlen_def)
      moreover from True stop have "ct_loop a b max_len i result = (i, r')"
        unfolding r'_def by (simp only: simps Let_def if_True)
      ultimately show ?thesis using r' by auto
    next
      case go: False
      then have "i \<noteq> strlen a" "i \<noteq> strlen b"
        using byte_at_strlen [of a] byte_at_strlen [of b] by auto
      with "1.prems" have lt: "i < strlen a" "i < strlen b" by simp_all
      have da: "drop i (cstr a) = cstr a ! i # drop (i + 1) (cstr a)"
        using lt by (simp add: strlen_def Cons_nth_drop_Suc)
      have db: "drop i (cstr b) = cstr b ! i # drop (i + 1) (cstr b)"
        using lt by (simp add: strlen_def Cons_nth_drop_Suc)
      have hd: "cstr a ! i = cstr b ! i \<longleftrightarrow> byte_at a i = byte_at b i"
        using lt by (simp add: byte_at_cstr)
      have "(case ct_loop a b max_len (i + 1) r' of (j, r'') \<Rightarrow> r'' = 0 \<and> byte_at a j = byte_at b j)
              \<longleftrightarrow> (r' = 0 \<and> drop (i + 1) (cstr a) = drop (i + 1) (cstr b))"
        using "1.IH" [OF True r'_def go] lt "1.prems" r'_lt by simp
      moreover from True go have "ct_loop a b max_len i result = ct_loop a b max_len (i + 1) r'"
        unfolding r'_def by (simp only: simps Let_def if_True if_False)
      ultimately show ?thesis using r' da db hd by auto
    qed
  qed
qed

lemma constant_time_strcmp_eq:
  "strlen a \<le> max_len \<Longrightarrow> strlen b \<le> max_len \<Longrightarrow>
   constant_time_strcmp (Some a) (Some b) max_len \<longleftrightarrow> strcmp_eq a b"
  using ct_loop_correct [of 0 a b max_len 0]
  by (simp add: constant_time_strcmp_def strcmp_eq_cstr)

lemma has_walk_find:
  "\<forall>e \<in> set es. strlen (ce_key e) \<le> EVENTCHAINS_MAX_KEY_LENGTH \<Longrightarrow>
   strlen k \<le> EVENTCHAINS_MAX_KEY_LENGTH \<Longrightarrow>
   has_walk es k found \<longleftrightarrow> (found \<or> find_from es k n \<noteq> None)"
  by (induction es arbitrary: found n) (auto simp: constant_time_strcmp_eq)

text \<open>
  Claim C10.  When every stored key and the queried key are at most
  \<^verbatim>\<open>EVENTCHAINS_MAX_KEY_LENGTH\<close> bytes long, \<^verbatim>\<open>event_context_has\<close> returns the same
  boolean with the constant-time walk as with the short-circuiting \<^verbatim>\<open>find_entry\<close>.
\<close>

theorem has_modes_agree:
  assumes "\<forall>e \<in> set (ctx_entries ctx). strlen (ce_key e) \<le> EVENTCHAINS_MAX_KEY_LENGTH"
    and "strlen k \<le> EVENTCHAINS_MAX_KEY_LENGTH"
  shows "event_context_has (Some ctx) (Some k) True = event_context_has (Some ctx) (Some k) False"
  using has_walk_find [OF assms, of False 0]
  by (simp add: event_context_has_def find_entry_def)

lemma find_from_bounds: "find_from es k n = Some i \<Longrightarrow> n \<le> i \<and> i - n < length es"
proof (induction es arbitrary: n)
  case Nil
  then show ?case by simp
next
  case (Cons e es)
  show ?case
  proof (cases "strcmp_eq (ce_key e) k")
    case True
    with Cons.prems show ?thesis by simp
  next
    case False
    with Cons.prems have "find_from es k (n + 1) = Some i" by simp
    from Cons.IH [OF this] show ?thesis by auto
  qed
qed

lemma find_from_keys:
  "map ce_key es' = map ce_key es \<Longrightarrow> find_from es' k n = find_from es k n"
proof (induction es arbitrary: es' n)
  case Nil
  then show ?case by simp
next
  case (Cons e es)
  then obtain e' es'' where "es' = e' # es''" by (cases es') auto
  with Cons show ?case by auto
qed

lemma find_from_hit:
  "find_from es k n = Some i \<Longrightarrow> strcmp_eq (ce_key (es ! (i - n))) k"
proof (induction es arbitrary: n)
  case Nil
  then show ?case by simp
next
  case (Cons e es)
  show ?case
  proof (cases "strcmp_eq (ce_key e) k")
    case True
    with Cons.prems show ?thesis by simp
  next
    case False
    with Cons.prems have f: "find_from es k (n + 1) = Some i" by simp
    then have "n + 1 \<le> i" by (auto dest: find_from_bounds)
    then have "(e # es) ! (i - n) = es ! (i - (n + 1))"
      by (simp add: nth_Cons')
    with Cons.IH [OF f] show ?thesis by simp
  qed
qed

lemma find_from_append_miss:
  "find_from es k n = None \<Longrightarrow>
   find_from (es @ [e]) k n = (if strcmp_eq (ce_key e) k then Some (n + length es) else None)"
  by (induction es arbitrary: n) (auto split: if_splits)

lemma strcmp_eq_strdup: "strcmp_eq (strdup k) k"
  by (simp add: strcmp_eq_cstr strdup_def cstr_idem)

lemma ensure_capacity_entries:
  "ensure_capacity ok ctx = (err, ctx') \<Longrightarrow> ctx_entries ctx' = ctx_entries ctx"
  unfolding ensure_capacity_def Let_def
  by (simp split: if_splits option.splits) auto

lemma get_at:
  assumes "find_from (ctx_entries c) k 0 = Some i" and "rcv_data (ce_value (ctx_entries c ! i)) = v"
  shows "event_context_get (Some c) (Some k) False = (EC_SUCCESS, Some v)"
  using assms by (simp add: event_context_get_def find_entry_def ref_counted_value_get_data_def)

lemma set_success_found:
  assumes "event_context_set_with_cleanup heap (Some ctx) (Some k) v cl = (EC_SUCCESS, ctx', calls)"
    and "find_entry ctx k = Some i"
  shows "\<exists>rv. ref_counted_value_create (malloc_value_ok heap) v cl = Some rv \<and>
           ctx' = Some (ctx\<lparr>ctx_entries :=
                 (ctx_entries ctx)[i := (ctx_entries ctx ! i)\<lparr>ce_value := rv\<rparr>]\<rparr>)"
  using assms unfolding event_context_set_with_cleanup_def Let_def
  by (simp split: if_splits option.splits prod.splits)

lemma set_success_fresh:
  assumes "event_context_set_with_cleanup heap (Some ctx) (Some k) v cl = (EC_SUCCESS, ctx', calls)"
    and "find_entry ctx k = None"
    and "ensure_capacity (realloc_entries_ok heap) ctx = (err, c1)"
  shows "\<exists>rv. ref_counted_value_create (malloc_value_ok heap) v cl = Some rv \<and>
           ctx' = Some (c1\<lparr>ctx_entries := ctx_entries c1 @ [\<lparr>ce_key = strdup k, ce_value = rv\<rparr>],
                  ctx_total_memory_bytes := size_add (ctx_total_memory_bytes c1)
                    (size_add (size_add (safe_strnlen (Some k) (EVENTCHAINS_MAX_KEY_LENGTH + 1)) 1)
                       sizeof_RefCountedValue)\<rparr>)"
  using assms unfolding event_context_set_with_cleanup_def Let_def
  by (simp split: if_splits option.splits prod.splits)

lemma create_data:
  "ref_counted_value_create ok v cl = Some rv \<Longrightarrow> rcv_data rv = v"
  unfolding ref_counted_value_create_def by (simp split: if_splits) auto

text \<open>
  Claim C7.  After a successful \<^verbatim>\<open>event_context_set(ctx, k, v)\<close>, whether it appended
  a new entry or overwrote an existing one, \<^verbatim>\<open>event_context_get(ctx, k)\<close> succeeds and
  yields exactly the payload pointer \<open>v\<close>, NULL included.  (A set succeeds only
  for a key of 1 to \<^verbatim>\<open>EVENTCHAINS_MAX_KEY_LENGTH\<close> bytes.)
\<close>

theorem set_then_get:
  assumes "event_context_set heap (Some ctx) (Some k) v = (EC_SUCCESS, ctx', calls)"
  shows "event_context_get ctx' (Some k) False = (EC_SUCCESS, Some v)"
proof -
  from assms have s: "event_context_set_with_cleanup heap (Some ctx) (Some k) v 0 = (EC_SUCCESS, ctx', calls)"
    unfolding event_context_set_def .
  show ?thesis
  proof (cases "find_entry ctx k")
    case None
    obtain err c1 where ec: "ensure_capacity (realloc_entries_ok heap) ctx = (err, c1)"
      by (cases "ensure_capacity (realloc_entries_ok heap) ctx")
    from ec have ents: "ctx_entries c1 = ctx_entries ctx" by (rule ensure_capacity_entries)
    from set_success_fresh [OF s None ec] obtain rv c2 where
      rv: "ref_counted_value_create (malloc_value_ok heap) v 0 = Some rv"
      and ctx': "ctx' = Some c2"
      and c2: "ctx_entries c2 = ctx_entries c1 @ [\<lparr>ce_key = strdup k, ce_value = rv\<rparr>]"
      by fastforce
    from rv have d: "rcv_data rv = v" by (rule create_data)
    from None have "find_from (ctx_entries ctx) k 0 = None" unfolding find_entry_def .
    then have f: "find_from (ctx_entries c2) k 0 = Some (length (ctx_entries ctx))"
      unfolding c2 ents by (simp add: find_from_append_miss strcmp_eq_strdup)
    have "rcv_data (ce_value (ctx_entries c2 ! length (ctx_entries ctx))) = v"
      unfolding c2 ents using d by simp
    with f show ?thesis unfolding ctx' by (rule get_at)
  next
    case (Some i)
    then have f: "find_from (ctx_entries ctx) k 0 = Some i" unfolding find_entry_def .
    then have i: "i < length (ctx_entries ctx)" by (auto dest: find_from_bounds)
    from set_success_found [OF s Some] obtain rv c2 where
      rv: "ref_counted_value_create (malloc_value_ok heap) v 0 = Some rv"
      and ctx': "ctx' = Some c2"
      and c2: "ctx_entries c2 = (ctx_entries ctx)[i := (ctx_entries ctx ! i)\<lparr>ce_value := rv\<rparr>]"
      by fastforce
    from rv have d: "rcv_data rv = v" by (rule create_data)
    have "map ce_key (ctx_entries c2) = map ce_key (ctx_entries ctx)"
    proof (rule nth_equalityI)
      show "length (map ce_key (ctx_entries c2)) = length (map ce_key (ctx_entries ctx))"
        unfolding c2 by simp
    next
      fix j assume "j < length (map ce_key (ctx_entries c2))"
      then have j: "j < length (ctx_entries ctx)" unfolding c2 by simp
      show "map ce_key (ctx_entries c2) ! j = map ce_key (ctx_entries ctx) ! j"
        unfolding c2 using j by (cases "j = i") simp_all
    qed
    from find_from_keys [OF this, of k 0] have f2: "find_from (ctx_entries c2) k 0 = Some i"
      using f by simp
    have "rcv_data (ce_value (ctx_entries c2 ! i)) = v"
      unfolding c2 using i d by simp
    with f2 show ?thesis unfolding ctx' by (rule get_at)
  qed
qed

lemma find_from_none:
  "(\<And>e. e \<in> set es \<Longrightarrow> cstr (ce_key e) \<noteq> cstr k) \<Longrightarrow> find_from es k n = None"
  by (induction es arbitrary: n) (simp_all add: strcmp_eq_cstr)

lemma cstr_wkey: "cstr (wkey i) = wkey i"
  by (simp add: cstr_def wkey_def)

lemma full_ctx_fresh: "find_entry (full_ctx mem) ''z'' = None"
  unfolding find_entry_def
proof (rule find_from_none)
  fix e assume "e \<in> set (ctx_entries (full_ctx mem))"
  then obtain i where "ce_key e = wkey i" by (auto simp: full_ctx_def)
  then show "cstr (ce_key e) \<noteq> cstr ''z''"
    by (simp add: cstr_wkey) (simp add: cstr_def wkey_def)
qed

lemma strlen_z: "strlen ''z'' = 1"
  by (simp add: strlen_def cstr_def)

lemma inj_on_wkey: "inj_on wkey {0..<512}"
proof (rule inj_onI)
  fix i j assume ij: "i \<in> {0..<512}" "j \<in> {0..<512}" and e: "wkey i = wkey j"
  from e have l: "i mod 256 = j mod 256"
    by (metis wkey_def length_replicate nat.inject)
  from e have "hd (wkey i) = hd (wkey j)" by simp
  then have "(i < 256) = (j < 256)" by (simp add: wkey_def split: if_splits)
  with l ij show "i = j"
    by (cases "i < 256") (auto simp: mod_if split: if_splits)
qed

lemma set_at_capacity_result:
  assumes key: "1 \<le> strlen k" "strlen k \<le> EVENTCHAINS_MAX_KEY_LENGTH"
    and wf: "context_wf ctx" and full: "ctx_count ctx = EVENTCHAINS_MAX_CONTEXT_ENTRIES"
    and fresh: "find_entry ctx k = None"
    and mem: "size_add (ctx_total_memory_bytes ctx)
                (size_add (size_add (strlen k) 1) sizeof_RefCountedValue)
              \<le> EVENTCHAINS_MAX_CONTEXT_MEMORY"
    and mk: "ref_counted_value_create (malloc_value_ok heap) v cl = Some w"
  shows "event_context_set_with_cleanup heap (Some ctx) (Some k) v cl
           = (EC_ERROR_CAPACITY_EXCEEDED, Some ctx,
              snd (snd (ref_counted_value_release (Some w))))"
proof -
  have len: "safe_strnlen (Some k) (EVENTCHAINS_MAX_KEY_LENGTH + 1) = strlen k"
    using key by (simp add: safe_strnlen_Some)
  have cap: "ensure_capacity (realloc_entries_ok heap) ctx = (EC_ERROR_CAPACITY_EXCEEDED, ctx)"
    using wf full by (simp add: ensure_capacity_def context_wf_def)
  show ?thesis
    unfolding event_context_set_with_cleanup_def Let_def len
    using cap mk key fresh mem
    by (simp add: EVENTCHAINS_MAX_KEY_LENGTH_def split: prod.splits)
qed

lemma set_over_memory_limit:
  assumes key: "1 \<le> strlen k" "strlen k \<le> EVENTCHAINS_MAX_KEY_LENGTH"
    and mem: "size_add (ctx_total_memory_bytes ctx)
                (size_add (size_add (strlen k) 1) sizeof_RefCountedValue)
              > EVENTCHAINS_MAX_CONTEXT_MEMORY"
  shows "event_context_set_with_cleanup heap (Some ctx) (Some k) v cl
           = (EC_ERROR_MEMORY_LIMIT_EXCEEDED, Some ctx, [])"
proof -
  have len: "safe_strnlen (Some k) (EVENTCHAINS_MAX_KEY_LENGTH + 1) = strlen k"
    using key by (simp add: safe_strnlen_Some)
  show ?thesis
    unfolding event_context_set_with_cleanup_def Let_def len
    using key mem by (simp add: EVENTCHAINS_MAX_KEY_LENGTH_def)
qed

text \<open>
  Claim C6 at a context that holds 512 different keys: a set of a further key
  with a cleanup callback (as every caller in the repository passes one) returns
  \<^verbatim>\<open>EC_ERROR_CAPACITY_EXCEEDED\<close> and the context as it was (entries, count,
  capacity and memory counter), but only after it has created the wrapper and
  released it again, which runs the callback on the rejected payload.  With a NULL
  callback the same call makes no cleanup call, and neither does the call that the
  memory limit rejects: it returns before the wrapper is created.
\<close>

theorem set_at_capacity_runs_cleanup:
  "ctx_count (full_ctx 100000) = EVENTCHAINS_MAX_CONTEXT_ENTRIES \<and>
   distinct (map ce_key (ctx_entries (full_ctx 100000))) \<and>
   event_context_set_with_cleanup heap_ok (Some (full_ctx 100000)) (Some ''z'') (Some 7) 4096
     = (EC_ERROR_CAPACITY_EXCEEDED, Some (full_ctx 100000), [(4096, 7)]) \<and>
   event_context_set_with_cleanup heap_ok (Some (full_ctx 100000)) (Some ''z'') (Some 7) 0
     = (EC_ERROR_CAPACITY_EXCEEDED, Some (full_ctx 100000), []) \<and>
   event_context_set_with_cleanup heap_ok (Some (full_ctx EVENTCHAINS_MAX_CONTEXT_MEMORY))
       (Some ''z'') (Some 7) 4096
     = (EC_ERROR_MEMORY_LIMIT_EXCEEDED, Some (full_ctx EVENTCHAINS_MAX_CONTEXT_MEMORY), [])"
proof -
  have k: "1 \<le> strlen ''z''" "strlen ''z'' \<le> EVENTCHAINS_MAX_KEY_LENGTH"
    by (simp_all add: strlen_z EVENTCHAINS_MAX_KEY_LENGTH_def)
  have wf: "context_wf (full_ctx 100000)"
    and full: "ctx_count (full_ctx 100000) = EVENTCHAINS_MAX_CONTEXT_ENTRIES"
    by (simp_all add: context_wf_def ctx_count_def full_ctx_def
                      EVENTCHAINS_MAX_CONTEXT_ENTRIES_def)
  have m: "size_add (ctx_total_memory_bytes (full_ctx 100000))
              (size_add (size_add (strlen ''z'') 1) sizeof_RefCountedValue)
            \<le> EVENTCHAINS_MAX_CONTEXT_MEMORY"
    by (simp add: strlen_z size_add_def sizeof_RefCountedValue_def full_ctx_def
                  EVENTCHAINS_MAX_CONTEXT_MEMORY_def)
  have w1: "ref_counted_value_create (malloc_value_ok heap_ok) (Some (7::nat)) 4096
              = Some \<lparr>rcv_data = Some 7, rcv_cleanup = 4096, rcv_ref_count = 1\<rparr>"
    and w0: "ref_counted_value_create (malloc_value_ok heap_ok) (Some (7::nat)) 0
              = Some \<lparr>rcv_data = Some 7, rcv_cleanup = 0, rcv_ref_count = 1\<rparr>"
    by (simp_all add: ref_counted_value_create_def heap_ok_def is_valid_function_pointer_def
                      MIN_FUNCTION_POINTER_def)
  have d: "distinct (map ce_key (ctx_entries (full_ctx 100000)))"
    by (simp add: full_ctx_def comp_def distinct_map inj_on_wkey)
  have over: "size_add (ctx_total_memory_bytes (full_ctx EVENTCHAINS_MAX_CONTEXT_MEMORY))
              (size_add (size_add (strlen ''z'') 1) sizeof_RefCountedValue)
            > EVENTCHAINS_MAX_CONTEXT_MEMORY"
    by (simp add: strlen_z size_add_def sizeof_RefCountedValue_def full_ctx_def
                  EVENTCHAINS_MAX_CONTEXT_MEMORY_def)
  show ?thesis
    using set_at_capacity_result [OF k wf full full_ctx_fresh m w1]
          set_at_capacity_result [OF k wf full full_ctx_fresh m w0] full d
          set_over_memory_limit [OF k over, of heap_ok "Some 7" 4096]
    by (simp add: ref_counted_value_release_def)
qed

lemma strlen_tokens: "strlen ''tokens'' = 6" by (simp add: strlen_def cstr_def)
lemma strlen_ast: "strlen ''ast'' = 3" by (simp add: strlen_def cstr_def)

theorem has_modes_agree_witness:
  "event_context_has (Some ctx0) (Some ''tokens'') True = True \<and>
   event_context_has (Some ctx0) (Some ''tokens'') False = True \<and>
   event_context_has (Some ctx0) (Some ''ast'') True = False \<and>
   event_context_has (Some ctx0) (Some ''ast'') False = False"
proof -
  have e: "\<forall>e \<in> set (ctx_entries ctx0). strlen (ce_key e) \<le> EVENTCHAINS_MAX_KEY_LENGTH"
    by (simp add: ctx0_def strlen_tokens EVENTCHAINS_MAX_KEY_LENGTH_def)
  have k: "strlen ''tokens'' \<le> EVENTCHAINS_MAX_KEY_LENGTH" "strlen ''ast'' \<le> EVENTCHAINS_MAX_KEY_LENGTH"
    by (simp_all add: strlen_tokens strlen_ast EVENTCHAINS_MAX_KEY_LENGTH_def)
  have f: "event_context_has (Some ctx0) (Some ''tokens'') False = True"
       "event_context_has (Some ctx0) (Some ''ast'') False = False"
    by (simp_all add: event_context_has_def find_entry_def ctx0_def strcmp_eq_cstr cstr_def)
  show ?thesis
    using has_modes_agree [OF e k(1)] has_modes_agree [OF e k(2)] f by simp
qed

lemma set_ctx0:
  "event_context_set heap_ok (Some ctx0) (Some ''ast'') (Some 5)
     = (EC_SUCCESS, Some (ctx0\<lparr>ctx_entries := ctx_entries ctx0 @
          [\<lparr>ce_key = ''ast'', ce_value = \<lparr>rcv_data = Some 5, rcv_cleanup = 0, rcv_ref_count = 1\<rparr>\<rparr>],
          ctx_total_memory_bytes := 259\<rparr>), [])"
  by (simp add: event_context_set_def event_context_set_with_cleanup_def safe_strnlen_Some
        strlen_ast EVENTCHAINS_MAX_KEY_LENGTH_def size_add_def sizeof_RefCountedValue_def
        EVENTCHAINS_MAX_CONTEXT_MEMORY_def find_entry_def ctx0_def strcmp_eq_cstr cstr_def
        ref_counted_value_create_def heap_ok_def ensure_capacity_def ctx_count_def strdup_def
        INITIAL_CAPACITY_def)

lemma set_ctx0_overwrite:
  "event_context_set heap_ok (Some ctx0) (Some ''tokens'') (Some 9)
     = (EC_SUCCESS, Some (ctx0\<lparr>ctx_entries :=
          [\<lparr>ce_key = ''tokens'', ce_value = \<lparr>rcv_data = Some 9, rcv_cleanup = 0, rcv_ref_count = 1\<rparr>\<rparr>]\<rparr>), [])"
  by (simp add: event_context_set_def event_context_set_with_cleanup_def safe_strnlen_Some
        strlen_tokens EVENTCHAINS_MAX_KEY_LENGTH_def size_add_def sizeof_RefCountedValue_def
        EVENTCHAINS_MAX_CONTEXT_MEMORY_def find_entry_def ctx0_def strcmp_eq_cstr cstr_def
        ref_counted_value_create_def heap_ok_def ref_counted_value_release_def)

theorem set_then_get_witness:
  "event_context_set heap_ok (Some ctx0) (Some ''ast'') (Some 5)
     = (EC_SUCCESS, Some (ctx0\<lparr>ctx_entries := ctx_entries ctx0 @
          [\<lparr>ce_key = ''ast'', ce_value = \<lparr>rcv_data = Some 5, rcv_cleanup = 0, rcv_ref_count = 1\<rparr>\<rparr>],
          ctx_total_memory_bytes := 259\<rparr>), [])
   \<and> event_context_get (Some (ctx0\<lparr>ctx_entries := ctx_entries ctx0 @
          [\<lparr>ce_key = ''ast'', ce_value = \<lparr>rcv_data = Some 5, rcv_cleanup = 0, rcv_ref_count = 1\<rparr>\<rparr>],
          ctx_total_memory_bytes := 259\<rparr>)) (Some ''ast'') False = (EC_SUCCESS, Some (Some 5))
   \<and> event_context_get (Some (ctx0\<lparr>ctx_entries :=
          [\<lparr>ce_key = ''tokens'', ce_value = \<lparr>rcv_data = Some 9, rcv_cleanup = 0, rcv_ref_count = 1\<rparr>\<rparr>]\<rparr>))
          (Some ''tokens'') False = (EC_SUCCESS, Some (Some 9))"
  using set_then_get [OF set_ctx0] set_then_get [OF set_ctx0_overwrite] set_ctx0 by simp

section \<open>Properties of the chain\<close>

lemma add_event_reentrancy:
  "ch_is_executing c \<noteq> 0 \<Longrightarrow>
   event_chain_add_event realloc_ok (Some c) (Some e) = (EC_ERROR_REENTRANCY, Some c)"
  by (simp add: event_chain_add_event_def)

lemma use_middleware_reentrancy:
  "ch_is_executing c \<noteq> 0 \<Longrightarrow>
   event_chain_use_middleware realloc_ok (Some c) (Some m) = (EC_ERROR_REENTRANCY, Some c)"
  by (simp add: event_chain_use_middleware_def)

subsection \<open>The loop of \<^verbatim>\<open>event_chain_execute\<close>\<close>

















text \<open>
  The run returns whenever no handler changes the number of events: in
  particular in strict, lenient and best-effort mode, and in custom mode without a
  handler, where none is called.
\<close>

lemma body_measure:
  assumes b: "loop_cond s"
    and h: "\<And>p c e r d. length (ch_events (fst (snd (H p c e r d)))) = length (ch_events c)"
  shows "(if xs_status (exec_body H R s) = LOOP_RUNNING
          then Suc (length (ch_events (xs_chain (exec_body H R s))) - xs_i (exec_body H R s))
          else 0)
         < (if xs_status s = LOOP_RUNNING
            then Suc (length (ch_events (xs_chain s)) - xs_i s) else 0)"
proof -
  obtain er c1 where e: "execute_event_with_middleware (xs_chain s)
      (ch_events (xs_chain s) ! xs_i s) = (er, c1)"
    by (cases "execute_event_with_middleware (xs_chain s) (ch_events (xs_chain s) ! xs_i s)")
  obtain sc c2 er2 where sh: "should_continue_after H (xs_chain s\<lparr>ch_context := c1\<rparr>)
      (ch_events (xs_chain s) ! xs_i s) er = (sc, c2, er2)"
    by (cases "should_continue_after H (xs_chain s\<lparr>ch_context := c1\<rparr>)
      (ch_events (xs_chain s) ! xs_i s) er") auto
  have "length (ch_events (fst (snd (should_continue_after H (xs_chain s\<lparr>ch_context := c1\<rparr>)
      (ch_events (xs_chain s) ! xs_i s) er)))) = length (ch_events (xs_chain s))"
    unfolding should_continue_after_def
    by (cases "ch_fault_tolerance (xs_chain s)") (simp_all add: h)
  with sh have l: "length (ch_events c2) = length (ch_events (xs_chain s))" by simp
  show ?thesis
    using b e sh l unfolding exec_body_def Let_def loop_cond_def
    by (simp split: option.splits) auto
qed

lemma loop_returns:
  assumes h: "\<And>p c e r d. length (ch_events (fst (snd (H p c e r d)))) = length (ch_events c)"
  shows "\<exists>t. while_option loop_cond (exec_body H R) s = Some t"
  by (rule measure_while_option_Some [where P = "\<lambda>s. True" and
        f = "\<lambda>s. if xs_status s = LOOP_RUNNING
                 then Suc (length (ch_events (xs_chain s)) - xs_i s) else 0"])
     (simp_all add: body_measure [OF _ h])

lemma execute_returns:
  assumes h: "\<And>p c e r d. length (ch_events (fst (snd (H p c e r d)))) = length (ch_events c)"
  shows "event_chain_execute H R chain result_ptr_null \<noteq> DIVERGES"
proof -
  have nn: "(while_option loop_cond (exec_body H R) s = None) = False" for s
    using loop_returns [where H = H and R = R and s = s, OF h] by auto
  show ?thesis
    unfolding event_chain_execute_def Let_def
    by (simp add: nn split: option.splits)
qed

lemma body_defined:
  assumes b: "loop_cond s"
    and h: "\<And>p c e r d. length (ch_events (fst (snd (H p c e r d)))) = length (ch_events c)"
  shows "xs_status (exec_body H (\<lambda>n. True) s) \<noteq> LOOP_UNDEFINED"
proof -
  obtain er c1 where e: "execute_event_with_middleware (xs_chain s)
      (ch_events (xs_chain s) ! xs_i s) = (er, c1)"
    by (cases "execute_event_with_middleware (xs_chain s) (ch_events (xs_chain s) ! xs_i s)")
  obtain sc c2 er2 where sh: "should_continue_after H (xs_chain s\<lparr>ch_context := c1\<rparr>)
      (ch_events (xs_chain s) ! xs_i s) er = (sc, c2, er2)"
    by (cases "should_continue_after H (xs_chain s\<lparr>ch_context := c1\<rparr>)
      (ch_events (xs_chain s) ! xs_i s) er") auto
  have "length (ch_events (fst (snd (should_continue_after H (xs_chain s\<lparr>ch_context := c1\<rparr>)
      (ch_events (xs_chain s) ! xs_i s) er)))) = length (ch_events (xs_chain s))"
    unfolding should_continue_after_def
    by (cases "ch_fault_tolerance (xs_chain s)") (simp_all add: h)
  with sh have l: "length (ch_events c2) = length (ch_events (xs_chain s))" by simp
  show ?thesis
    using b e sh l unfolding exec_body_def Let_def loop_cond_def
    by (simp split: option.splits)
qed

lemma execute_returns_result:
  fixes H :: "('a, 'b) handler_table"
  assumes h: "\<And>p c e r d. length (ch_events (fst (snd (H p c e r d)))) = length (ch_events c)"
    and idle: "ch_is_executing chain = 0"
  shows "\<exists>result chain'. event_chain_execute H grant_all (Some chain) False
           = RETURNS (Some result, Some chain')"
proof -
  let ?s0 = "init_state (chain\<lparr>ch_is_executing := 1\<rparr>)"
  from loop_returns [where H = H and R = "\<lambda>n. True" and s = ?s0, OF h]
  obtain t where w: "while_option loop_cond (exec_body H (\<lambda>n. True)) ?s0 = Some t"
    by blast
  have "xs_status t \<noteq> LOOP_UNDEFINED"
  proof (rule while_option_rule [where P = "\<lambda>s. xs_status s \<noteq> LOOP_UNDEFINED", OF _ w])
    show "xs_status ?s0 \<noteq> LOOP_UNDEFINED" by (simp add: init_state_def)
  next
    fix s :: "('a, 'b) exec_state" assume "loop_cond s"
    then show "xs_status (exec_body H (\<lambda>n. True) s) \<noteq> LOOP_UNDEFINED"
      using h by (rule body_defined)
  qed
  with w idle show ?thesis
    unfolding event_chain_execute_def Let_def
    by (simp add: grant_all_def [abs_def])
qed

subsection \<open>Runs of the example chains\<close>

lemma while_step:
  "loop_cond s \<Longrightarrow> while_option loop_cond f s = while_option loop_cond f (f s)"
  by (subst while_option_unfold) simp

lemma while_done:
  "\<not> loop_cond s \<Longrightarrow> while_option loop_cond f s = Some s"
  by (subst while_option_unfold) simp




lemma mode_chain_of: "ch_fault_tolerance (chain_of mode) = mode"
  "ch_failure_handler (chain_of mode) = 0" "ch_is_executing (chain_of mode) = 0"
  "ch_events (chain_of mode) = [passing_event, failing_event, passing_event]"
  by (simp_all add: chain_of_def event_chain_create_def event_chain_create_with_detail_def)












lemma handler_installed:
  "busy_chain\<lparr>ch_failure_handler := continue_handler_ptr, ch_failure_handler_data := None\<rparr>
     \<noteq> busy_chain"
proof
  assume "busy_chain\<lparr>ch_failure_handler := continue_handler_ptr,
                     ch_failure_handler_data := None\<rparr> = busy_chain"
  then have "ch_failure_handler (busy_chain\<lparr>ch_failure_handler := continue_handler_ptr,
                     ch_failure_handler_data := None\<rparr>) = ch_failure_handler busy_chain"
    by simp
  then show False
    by (simp add: busy_chain_def mode_chain_of continue_handler_ptr_def)
qed

text \<open>
  Claim C5 at a chain whose \<^verbatim>\<open>is_executing\<close> flag is 1:
  \<^verbatim>\<open>event_chain_set_failure_handler\<close> returns \<^verbatim>\<open>EC_SUCCESS\<close> and installs the handler,
  where \<^verbatim>\<open>event_chain_add_event\<close> on the same chain returns
  \<^verbatim>\<open>EC_ERROR_REENTRANCY\<close> and leaves it unchanged.
\<close>

theorem set_failure_handler_while_executing:
  "ch_is_executing busy_chain = 1 \<and>
   event_chain_set_failure_handler (Some busy_chain) continue_handler_ptr None
     = (EC_SUCCESS, Some (busy_chain\<lparr>ch_failure_handler := continue_handler_ptr,
                                      ch_failure_handler_data := None\<rparr>)) \<and>
   busy_chain\<lparr>ch_failure_handler := continue_handler_ptr, ch_failure_handler_data := None\<rparr>
     \<noteq> busy_chain \<and>
   event_chain_add_event True (Some busy_chain) (Some passing_event)
     = (EC_ERROR_REENTRANCY, Some busy_chain)"
  using handler_installed
  by (simp add: event_chain_set_failure_handler_def event_chain_add_event_def busy_chain_def)
section \<open>Properties of the lexer\<close>









lemma token_create_granted: "\<exists>t. token_create True k l n ln c = Some t"
  by (simp add: token_create_def split: option.splits)



















end
